theory Spec2Isabelle
  imports Main "HOL-Library.Sublist"
begin

section \<open>Documents, blocks and the outside world\<close>

text \<open>
  The program works on BeautifulSoup trees built by Python's \<^verbatim>\<open>html.parser\<close>. A tree node
  is an element (tag name, attributes, children) or a character-data node (a
  \<^verbatim>\<open>NavigableString\<close>, which is a \<^verbatim>\<open>str\<close> instance). A markup string is represented by
  the forest it denotes: \<^verbatim>\<open>str(soup)\<close> is the forest itself, string concatenation is
  list append, and \<^verbatim>\<open>BeautifulSoup(s, "html.parser")\<close> rebuilds the tree from the
  serialised text, which joins character data that has become adjacent and drops
  character data that is empty (see \<open>BeautifulSoup\<close> below). Comments, doctypes and
  other special strings are not distinguished from ordinary character data.
\<close>

datatype node = Tag string "(string \<times> string) list" "node list" | Text string

type_synonym html = "node list"

text \<open>The blocks handed to the word-processor writer (\<^verbatim>\<open>doc.add_heading\<close>,
  \<^verbatim>\<open>doc.add_paragraph\<close>, \<^verbatim>\<open>doc.add_picture\<close> with its width in inches).\<close>

datatype block = Heading string nat | Paragraph string | Picture "nat list" nat

text \<open>What the program shows through Streamlit: \<^verbatim>\<open>st.error\<close>, \<^verbatim>\<open>st.warning\<close>,
  \<^verbatim>\<open>st.success\<close>.\<close>

datatype notice = Error string | Warning string | Success string

text \<open>
  A successful \<^verbatim>\<open>requests.get\<close> followed by \<^verbatim>\<open>raise_for_status\<close>: the body as text
  (\<^verbatim>\<open>response.text\<close>), the forest that text denotes when it is read as markup, and the
  raw bytes (\<^verbatim>\<open>response.content\<close>).
\<close>

record response =
  resp_text :: string
  resp_markup :: html
  resp_content :: "nat list"

text \<open>
  The collaborators the program calls. \<open>requests_get url\<close> is \<open>Inl e\<close> when the request
  or its status check raises \<^verbatim>\<open>requests.RequestException\<close> with message \<open>e\<close>.
  \<open>urljoin\<close> is the library's URL resolution. \<open>text_has_name\<close> is what the installed
  BeautifulSoup answers to \<^verbatim>\<open>hasattr(s, 'name')\<close> for a character-data node \<^verbatim>\<open>s\<close>: true
  where such a node has a \<^verbatim>\<open>name\<close> (of value \<^verbatim>\<open>None\<close>) and, as a string, no \<^verbatim>\<open>children\<close>;
  false where the loop over the body's children passes it by. Both are modelled, and
  every property below holds for both. \<open>write_pdf\<close> is the PDF renderer.
\<close>

record env =
  requests_get :: "string \<Rightarrow> string + response"
  urljoin :: "string \<Rightarrow> string \<Rightarrow> string"
  text_has_name :: bool
  write_pdf :: "html \<Rightarrow> string + nat list"

text \<open>The Python exceptions that are not \<^verbatim>\<open>RequestException\<close>, with their messages.\<close>

datatype exn = AttributeError string | NameError string

fun exn_str :: "exn \<Rightarrow> string" where
  "exn_str (AttributeError m) = m"
| "exn_str (NameError m) = m"

definition no_children :: string where
  "no_children =
     [CHR 0x27] @ ''NavigableString' object has no attribute '' @ [CHR 0x27] @ ''children'' @ [CHR 0x27]"

subsection \<open>Tree access\<close>

fun tag_name :: "node \<Rightarrow> string option" where
  "tag_name (Tag n a cs) = Some n"
| "tag_name (Text t) = None"

fun children :: "node \<Rightarrow> node list" where
  "children (Tag n a cs) = cs"
| "children (Text t) = []"

fun is_tag :: "node \<Rightarrow> bool" where
  "is_tag (Tag n a cs) = True"
| "is_tag (Text t) = False"

text \<open>\<^verbatim>\<open>tag.get(key)\<close>: the attribute's value, or \<^verbatim>\<open>None\<close>.\<close>

fun get_attr :: "node \<Rightarrow> string \<Rightarrow> string option" where
  "get_attr (Tag n a cs) key = map_of a key"
| "get_attr (Text t) key = None"

text \<open>All nodes below a forest, in document order (depth first, parents before
  children, siblings left to right).\<close>

fun descendants :: "node list \<Rightarrow> node list" where
  "descendants [] = []"
| "descendants (Text t # ns) = Text t # descendants ns"
| "descendants (Tag n a cs # ns) = Tag n a cs # descendants cs @ descendants ns"

text \<open>\<^verbatim>\<open>find_all\<close> and \<^verbatim>\<open>find\<close> with a filter on elements: the matching elements in document
  order, and the first of them.\<close>

definition find_all :: "(node \<Rightarrow> bool) \<Rightarrow> node list \<Rightarrow> node list" where
  "find_all p soup = filter (\<lambda>x. is_tag x \<and> p x) (descendants soup)"

definition find :: "(node \<Rightarrow> bool) \<Rightarrow> node list \<Rightarrow> node option" where
  "find p soup = (case find_all p soup of [] \<Rightarrow> None | x # xs \<Rightarrow> Some x)"

definition named :: "string \<Rightarrow> node \<Rightarrow> bool" where
  "named n x = (tag_name x = Some n)"

text \<open>\<^verbatim>\<open>get_text()\<close>: the character data below a node, concatenated in document order.\<close>

fun get_text :: "node \<Rightarrow> string" where
  "get_text (Text t) = t"
| "get_text (Tag n a cs) = concat (map get_text cs)"

text \<open>Parsing a serialised forest again: adjacent character data is one node, empty
  character data is none.\<close>

fun BeautifulSoup :: "html \<Rightarrow> node list" where
  "BeautifulSoup [] = []"
| "BeautifulSoup (Text s # Text t # ns) = BeautifulSoup (Text (s @ t) # ns)"
| "BeautifulSoup (Text s # ns) = (if s = [] then BeautifulSoup ns else Text s # BeautifulSoup ns)"
| "BeautifulSoup (Tag n a cs # ns) = Tag n a (BeautifulSoup cs) # BeautifulSoup ns"

section \<open>Block Translator: \<^verbatim>\<open>convert_to_docx\<close>\<close>

text \<open>The document under construction and the notices shown so far.\<close>

record docx =
  doc :: "block list"
  st :: "notice list"

definition add_heading :: "string \<Rightarrow> nat \<Rightarrow> docx \<Rightarrow> docx" where
  "add_heading t level d = d\<lparr>doc := doc d @ [Heading t level]\<rparr>"

definition add_paragraph :: "string \<Rightarrow> docx \<Rightarrow> docx" where
  "add_paragraph t d = d\<lparr>doc := doc d @ [Paragraph t]\<rparr>"

definition add_picture :: "nat list \<Rightarrow> nat \<Rightarrow> docx \<Rightarrow> docx" where
  "add_picture bytes width d = d\<lparr>doc := doc d @ [Picture bytes width]\<rparr>"

definition st_warning :: "string \<Rightarrow> docx \<Rightarrow> docx" where
  "st_warning msg d = d\<lparr>st := st d @ [Warning msg]\<rparr>"

text \<open>Lines 117 to 136 of \<^verbatim>\<open>process_element\<close>: what the element itself adds, before its
  children are walked.\<close>

definition visit :: "env \<Rightarrow> string \<Rightarrow> node \<Rightarrow> docx \<Rightarrow> docx" where
  "visit e base_url element d =
     (if tag_name element = Some ''h1'' then add_heading (get_text element) 1 d
      else if tag_name element = Some ''h2'' then add_heading (get_text element) 2 d
      else if tag_name element = Some ''h3'' then add_heading (get_text element) 3 d
      else if tag_name element = Some ''p'' then add_paragraph (get_text element) d
      else if tag_name element = Some ''img'' then
        (case get_attr element ''src'' of
           None \<Rightarrow> d
         | Some src \<Rightarrow>
             if src = [] then d
             else (let img_url = urljoin e base_url src in
                   case requests_get e img_url of
                     Inr r \<Rightarrow> add_picture (resp_content r) 4 d
                   | Inl err \<Rightarrow>
                       st_warning (''Failed to retrieve image '' @ img_url @ '': '' @ err) d))
      else d)"

text \<open>
  \<^verbatim>\<open>process_element\<close> and its loop over \<^verbatim>\<open>element.children\<close>. Entered with a character-data
  node, the function finds no branch for the name \<^verbatim>\<open>None\<close> and then raises
  \<^verbatim>\<open>AttributeError\<close> at \<^verbatim>\<open>element.children\<close>; the notices shown until then stay shown.
\<close>

fun process_element :: "env \<Rightarrow> string \<Rightarrow> node \<Rightarrow> docx \<Rightarrow> (exn \<times> notice list) + docx"
  and process_children :: "env \<Rightarrow> string \<Rightarrow> node list \<Rightarrow> docx \<Rightarrow> (exn \<times> notice list) + docx"
where
  "process_element e base_url (Text t) d = Inl (AttributeError no_children, st d)"
| "process_element e base_url (Tag n a cs) d =
     process_children e base_url cs (visit e base_url (Tag n a cs) d)"
| "process_children e base_url [] d = Inr d"
| "process_children e base_url (Text t # cs) d =
     process_children e base_url cs (add_paragraph t d)"
| "process_children e base_url (Tag n a k # cs) d =
     (case process_element e base_url (Tag n a k) d of
        Inl x \<Rightarrow> Inl x
      | Inr d' \<Rightarrow> process_children e base_url cs d')"

text \<open>The loop over \<^verbatim>\<open>body.children\<close> (lines 147 to 149): only a node with a \<^verbatim>\<open>name\<close>
  attribute is passed to \<^verbatim>\<open>process_element\<close>; there is no branch for strings.\<close>

definition hasattr_name :: "env \<Rightarrow> node \<Rightarrow> bool" where
  "hasattr_name e x = (case x of Tag n a cs \<Rightarrow> True | Text t \<Rightarrow> text_has_name e)"

fun body_loop :: "env \<Rightarrow> string \<Rightarrow> node list \<Rightarrow> docx \<Rightarrow> (exn \<times> notice list) + docx" where
  "body_loop e base_url [] d = Inr d"
| "body_loop e base_url (x # xs) d =
     (if hasattr_name e x then
        (case process_element e base_url x d of
           Inl err \<Rightarrow> Inl err
         | Inr d' \<Rightarrow> body_loop e base_url xs d')
      else body_loop e base_url xs d)"

text \<open>\<^verbatim>\<open>soup.body if soup.body else soup\<close>, as the list of children the loop runs over.\<close>

definition body_of :: "node list \<Rightarrow> node list" where
  "body_of soup = (case find (named ''body'') soup of Some b \<Rightarrow> children b | None \<Rightarrow> soup)"

text \<open>
  \<^verbatim>\<open>convert_to_docx\<close>: the saved document is represented by its block sequence; the
  calls of the document writer themselves are taken to succeed. Any exception is caught,
  reported with \<^verbatim>\<open>st.error\<close>, and the result is \<^verbatim>\<open>None\<close>.
\<close>

definition convert_to_docx ::
    "env \<Rightarrow> html \<Rightarrow> string \<Rightarrow> notice list \<Rightarrow> block list option \<times> notice list" where
  "convert_to_docx e html_content base_url log =
     (case body_loop e base_url (body_of (BeautifulSoup html_content)) \<lparr>doc = [], st = log\<rparr> of
        Inr d \<Rightarrow> (Some (doc d), st d)
      | Inl (x, log') \<Rightarrow> (None, log' @ [Error (''Failed to generate DOCX: '' @ exn_str x)]))"


section \<open>Asset Inliner: \<^verbatim>\<open>include_css\<close>\<close>

text \<open>A multi-valued attribute (\<^verbatim>\<open>class\<close>, \<^verbatim>\<open>rel\<close>) is the list of its whitespace-separated
  words; a filter with a string matches it when one of the words is that string.\<close>

definition is_space :: "char \<Rightarrow> bool" where
  "is_space c = (c \<in> set [CHR '' '', CHR 0x09, CHR 0x0A, CHR 0x0B, CHR 0x0C, CHR 0x0D])"

fun ws_words :: "string \<Rightarrow> string \<Rightarrow> string list" where
  "ws_words cur [] = (if cur = [] then [] else [cur])"
| "ws_words cur (c # cs) =
     (if is_space c then (if cur = [] then ws_words [] cs else cur # ws_words [] cs)
      else ws_words (cur @ [c]) cs)"

definition has_word :: "string \<Rightarrow> string \<Rightarrow> node \<Rightarrow> bool" where
  "has_word key w x = (case get_attr x key of None \<Rightarrow> False | Some v \<Rightarrow> w \<in> set (ws_words [] v))"

text \<open>\<^verbatim>\<open>find_all("link", rel="stylesheet")\<close>.\<close>

definition is_stylesheet_link :: "node \<Rightarrow> bool" where
  "is_stylesheet_link x = (named ''link'' x \<and> has_word ''rel'' ''stylesheet'' x)"

definition startswith :: "string \<Rightarrow> string \<Rightarrow> bool" where
  "startswith s p = (take (length p) s = p)"

definition css_warning :: "string \<Rightarrow> string \<Rightarrow> notice" where
  "css_warning href err = Warning (''Failed to retrieve CSS file '' @ href @ '': '' @ err)"

text \<open>
  The body of the loop for one element of the tree (lines 26 to 37), as far as it does
  not change the tree: the text to put in place of the element when it is a stylesheet
  link with a non-empty \<^verbatim>\<open>href\<close> whose fetch succeeds, and the notices afterwards.
\<close>

definition link_step :: "env \<Rightarrow> string \<Rightarrow> node \<Rightarrow> notice list \<Rightarrow> string option \<times> notice list" where
  "link_step e base_url link log =
     (if is_stylesheet_link link then
        (case get_attr link ''href'' of
           None \<Rightarrow> (None, log)
         | Some href \<Rightarrow>
             if href = [] then (None, log)
             else (let href = (if \<not> startswith href ''http'' then urljoin e base_url href else href) in
                   case requests_get e href of
                     Inr r \<Rightarrow> (Some (resp_text r), log)
                   | Inl err \<Rightarrow> (None, log @ [css_warning href err])))
      else (None, log))"

definition css_style_tag :: "string \<Rightarrow> node" where
  "css_style_tag css = Tag ''style'' [(''type'', ''text/css'')] [Text css]"

text \<open>
  The loop over \<^verbatim>\<open>find_all\<close>'s result runs in document order and replaces in place, so it
  is a walk of the tree: an element is handled before the elements below it, those
  before its later siblings. A link below a link that was replaced is still fetched
  (the list was built before the loop), but its replacement happens in the detached
  subtree and does not show in the result.
\<close>

fun include_css_node :: "env \<Rightarrow> string \<Rightarrow> node \<Rightarrow> notice list \<Rightarrow> node \<times> notice list"
  and include_css_nodes :: "env \<Rightarrow> string \<Rightarrow> node list \<Rightarrow> notice list \<Rightarrow> node list \<times> notice list"
where
  "include_css_node e base_url (Text t) log = (Text t, log)"
| "include_css_node e base_url (Tag n a cs) log =
     (case link_step e base_url (Tag n a cs) log of
        (r, log1) \<Rightarrow>
          (case include_css_nodes e base_url cs log1 of
             (cs', log2) \<Rightarrow>
               (case r of Some css \<Rightarrow> (css_style_tag css, log2) | None \<Rightarrow> (Tag n a cs', log2))))"
| "include_css_nodes e base_url [] log = ([], log)"
| "include_css_nodes e base_url (x # xs) log =
     (case include_css_node e base_url x log of
        (x', log1) \<Rightarrow>
          (case include_css_nodes e base_url xs log1 of
             (xs', log2) \<Rightarrow> (x' # xs', log2)))"

definition include_css :: "env \<Rightarrow> node list \<Rightarrow> string \<Rightarrow> notice list \<Rightarrow> html \<times> notice list" where
  "include_css e soup base_url log = include_css_nodes e base_url soup log"

section \<open>Content Selector: \<^verbatim>\<open>extract_main_content\<close>\<close>

text \<open>Python's \<^verbatim>\<open>or\<close> on results of \<^verbatim>\<open>find\<close>: an element is always true, \<^verbatim>\<open>None\<close> is false.\<close>

definition por :: "'a option \<Rightarrow> 'a option \<Rightarrow> 'a option" where
  "por a b = (case a of Some x \<Rightarrow> Some x | None \<Rightarrow> b)"

definition div_class :: "string \<Rightarrow> node \<Rightarrow> bool" where
  "div_class c x = (named ''div'' x \<and> has_word ''class'' c x)"

definition div_id :: "string \<Rightarrow> node \<Rightarrow> bool" where
  "div_id i x = (named ''div'' x \<and> get_attr x ''id'' = Some i)"

definition sidebar_names :: "string list" where
  "sidebar_names = [''aside'', ''nav'', ''header'', ''footer'']"

text \<open>\<^verbatim>\<open>decompose()\<close> on every element that \<^verbatim>\<open>find_all(['aside', 'nav', 'header', 'footer'])\<close>
  returns: these elements are gone, wherever they are below the start.\<close>

fun decompose_sidebars :: "node list \<Rightarrow> node list" where
  "decompose_sidebars [] = []"
| "decompose_sidebars (Text t # ns) = Text t # decompose_sidebars ns"
| "decompose_sidebars (Tag n a cs # ns) =
     (if n \<in> set sidebar_names then decompose_sidebars ns
      else Tag n a (decompose_sidebars cs) # decompose_sidebars ns)"

fun without_sidebars :: "node \<Rightarrow> node" where
  "without_sidebars (Tag n a cs) = Tag n a (decompose_sidebars cs)"
| "without_sidebars (Text t) = Text t"

definition fallback_warning :: notice where
  "fallback_warning = Warning ''Main content not found, using full page content.''"

definition extract_main_content :: "node list \<Rightarrow> notice list \<Rightarrow> html \<times> notice list" where
  "extract_main_content soup log =
     (let main_content = por (find (named ''main'') soup) (find (named ''article'') soup);
          main_content =
            (if main_content = None then
               por (find (div_class ''main-content'') soup)
              (por (find (div_id ''main-content'') soup)
              (por (find (div_class ''content'') soup)
              (por (find (div_id ''content'') soup)
                   (find (div_class ''primary-content'') soup))))
             else main_content)
      in case main_content of
           Some m \<Rightarrow> ([without_sidebars m], log)
         | None \<Rightarrow> (soup, log @ [fallback_warning]))"

section \<open>Style Normalizer: \<^verbatim>\<open>style_html_content\<close>\<close>

definition css_import :: string where
  "css_import = ''\<newline>    @import url('https://fonts.googleapis.com/css2?family=Roboto:wght@400;700&display=swap');\<newline>\<newline>''"

definition css_body :: string where
  "css_body = ''    body {\<newline>        font-family: 'Roboto', sans-serif;\<newline>        line-height: 1.6;\<newline>        margin: 0;\<newline>        padding: 20px;\<newline>    }\<newline>''"

definition css_headings :: string where
  "css_headings = ''    h1, h2, h3, h4, h5, h6 {\<newline>        font-weight: 700;\<newline>    }\<newline>''"

definition css_img :: string where
  "css_img = ''    img {\<newline>        display: block;\<newline>        margin-left: auto;\<newline>        margin-right: auto;\<newline>        width: 70%;\<newline>        height: auto;\<newline>    }\<newline>''"

definition css_p :: string where
  "css_p = ''    p {\<newline>        text-align: justify;\<newline>    }\<newline>''"

text \<open>The string literal of lines 73 to 95, rule by rule.\<close>

definition style_css :: string where
  "style_css = css_import @ css_body @ css_headings @ css_img @ css_p @ ''    ''"

definition style_tag :: node where
  "style_tag = Tag ''style'' [] [Text style_css]"

text \<open>
  \<^verbatim>\<open>soup.html\<close> and \<^verbatim>\<open>soup.head\<close> are \<^verbatim>\<open>soup.find('html')\<close> and \<^verbatim>\<open>soup.find('head')\<close>: the first
  such element anywhere in the tree. \<open>on_first p f\<close> changes that element in place; it
  is \<open>None\<close> when there is none (where Python raises \<^verbatim>\<open>AttributeError\<close> on \<^verbatim>\<open>None\<close>).
\<close>

fun on_first :: "(node \<Rightarrow> bool) \<Rightarrow> (node \<Rightarrow> node) \<Rightarrow> node list \<Rightarrow> node list option" where
  "on_first p f [] = None"
| "on_first p f (Text t # ns) = map_option (\<lambda>ns'. Text t # ns') (on_first p f ns)"
| "on_first p f (Tag n a cs # ns) =
     (if p (Tag n a cs) then Some (f (Tag n a cs) # ns)
      else (case on_first p f cs of
              Some cs' \<Rightarrow> Some (Tag n a cs' # ns)
            | None \<Rightarrow> map_option (\<lambda>ns'. Tag n a cs # ns') (on_first p f ns)))"

text \<open>\<^verbatim>\<open>tag.insert(0, new)\<close> and \<^verbatim>\<open>tag.append(new)\<close>.\<close>

fun insert0 :: "node \<Rightarrow> node \<Rightarrow> node" where
  "insert0 new (Tag n a cs) = Tag n a (new # cs)"
| "insert0 new (Text t) = Text t"

fun append_child :: "node \<Rightarrow> node \<Rightarrow> node" where
  "append_child new (Tag n a cs) = Tag n a (cs @ [new])"
| "append_child new (Text t) = Text t"

definition none_has_no :: "string \<Rightarrow> exn" where
  "none_has_no attr = AttributeError (''NoneType object has no attribute '' @ attr)"

definition style_html_content :: "html \<Rightarrow> exn + html" where
  "style_html_content html_content =
     (let soup = BeautifulSoup html_content;
          soup = (if find (named ''html'') soup = None then Tag ''html'' [] [] # soup else soup)
      in case (if find (named ''head'') soup = None
               then on_first (named ''html'') (insert0 (Tag ''head'' [] [])) soup
               else Some soup) of
           None \<Rightarrow> Inl (none_has_no ''insert'')
         | Some soup \<Rightarrow>
             (case on_first (named ''head'') (append_child style_tag) soup of
                None \<Rightarrow> Inl (none_has_no ''append'')
              | Some soup \<Rightarrow> Inr soup))"

section \<open>Pipeline Orchestrator: \<^verbatim>\<open>main\<close>\<close>

text \<open>A markup string is true in a condition when it is not empty.\<close>

definition truthy :: "html \<Rightarrow> bool" where
  "truthy h = (BeautifulSoup h \<noteq> [])"

definition fetch_webpage :: "env \<Rightarrow> string \<Rightarrow> notice list \<Rightarrow> response option \<times> notice list" where
  "fetch_webpage e url log =
     (case requests_get e url of
        Inr r \<Rightarrow> (Some r, log)
      | Inl err \<Rightarrow> (None, log @ [Error (''Failed to retrieve the webpage: '' @ err)]))"

definition convert_to_pdf :: "env \<Rightarrow> html \<Rightarrow> notice list \<Rightarrow> nat list option \<times> notice list" where
  "convert_to_pdf e html_content log =
     (case write_pdf e html_content of
        Inr pdf \<Rightarrow> (Some pdf, log)
      | Inl err \<Rightarrow> (None, log @ [Error (''Failed to generate PDF: '' @ err)]))"

text \<open>The variables of \<^verbatim>\<open>main\<close> that the loop over the URLs changes; \<open>base_url\<close> is
  unbound until a page has been processed.\<close>

record app =
  combined_html_content :: html
  base_url :: "string option"
  log :: "notice list"

definition page_warning :: "string \<Rightarrow> notice" where
  "page_warning url = Warning (''Failed to retrieve the webpage content for URL: '' @ url)"

text \<open>One turn of the loop of lines 184 to 202. \<open>html_content\<close> is the response's text;
  the soup built from it is the response's markup.\<close>

definition process_url :: "env \<Rightarrow> string \<Rightarrow> app \<Rightarrow> exn + app" where
  "process_url e url s =
     (if url = [] then Inr s
      else (case fetch_webpage e url (log s) of
              (None, log1) \<Rightarrow> Inr (s\<lparr>log := log1 @ [page_warning url]\<rparr>)
            | (Some r, log1) \<Rightarrow>
                if resp_text r = [] then Inr (s\<lparr>log := log1 @ [page_warning url]\<rparr>)
                else (let soup = BeautifulSoup (resp_markup r);
                          base = urljoin e url ''/'' in
                      case include_css e soup base log1 of
                        (html_with_css, log2) \<Rightarrow>
                          (case extract_main_content (BeautifulSoup html_with_css) log2 of
                             (main_content_html, log3) \<Rightarrow>
                               (case (if truthy main_content_html
                                      then style_html_content main_content_html
                                      else style_html_content html_with_css) of
                                  Inl x \<Rightarrow> Inl x
                                | Inr styled_html_content \<Rightarrow>
                                    Inr \<lparr>combined_html_content =
                                           combined_html_content s @ styled_html_content,
                                         base_url = Some base, log = log3\<rparr>)))))"

fun process_urls :: "env \<Rightarrow> string list \<Rightarrow> app \<Rightarrow> exn + app" where
  "process_urls e [] s = Inr s"
| "process_urls e (url # urls) s =
     (case process_url e url s of Inl x \<Rightarrow> Inl x | Inr s' \<Rightarrow> process_urls e urls s')"

datatype doc_type = PDF | DOCX

text \<open>What the download button offers.\<close>

datatype download = PdfFile "nat list" | DocxFile "block list"

text \<open>
  The body of \<^verbatim>\<open>if st.button("Generate Document")\<close>, from the entered URLs and the chosen
  format to the download and the notices. The preview of the PDF is not modelled. An
  exception that nothing catches ends the run (\<open>Inl\<close>).
\<close>

definition main :: "env \<Rightarrow> string list \<Rightarrow> doc_type \<Rightarrow> exn + (download option \<times> notice list)" where
  "main e urls dt =
     (case process_urls e urls \<lparr>combined_html_content = [], base_url = None, log = []\<rparr> of
        Inl x \<Rightarrow> Inl x
      | Inr s \<Rightarrow>
          if truthy (combined_html_content s) then
            (case dt of
               PDF \<Rightarrow>
                 (case convert_to_pdf e (combined_html_content s) (log s) of
                    (Some pdf, log1) \<Rightarrow>
                      if pdf \<noteq> [] then Inr (Some (PdfFile pdf), log1 @ [Success ''PDF generated successfully!''])
                      else Inr (None, log1)
                  | (None, log1) \<Rightarrow> Inr (None, log1))
             | DOCX \<Rightarrow>
                 (case base_url s of
                    None \<Rightarrow> Inl (NameError ''base_url'')
                  | Some b \<Rightarrow>
                      (case convert_to_docx e (combined_html_content s) b (log s) of
                         (Some docx_content, log1) \<Rightarrow>
                           Inr (Some (DocxFile docx_content), log1 @ [Success ''DOCX generated successfully!''])
                       | (None, log1) \<Rightarrow> Inr (None, log1))))
          else Inr (None, log s @ [Warning ''No valid content to generate document.'']))"

section \<open>What the walk adds, node by node\<close>

text \<open>The URL that is requested for an element: none unless it is an \<^verbatim>\<open>img\<close> with a
  non-empty \<^verbatim>\<open>src\<close>, which is resolved against the base URL.\<close>

definition image_request :: "env \<Rightarrow> string \<Rightarrow> node \<Rightarrow> string option" where
  "image_request e base x =
     (if tag_name x = Some ''img'' then
        (case get_attr x ''src'' of
           None \<Rightarrow> None
         | Some src \<Rightarrow> if src = [] then None else Some (urljoin e base src))
      else None)"

definition image_warning :: "string \<Rightarrow> string \<Rightarrow> notice" where
  "image_warning img_url err = Warning (''Failed to retrieve image '' @ img_url @ '': '' @ err)"

text \<open>The blocks that belong to one node: a heading for \<^verbatim>\<open>h1\<close> to \<^verbatim>\<open>h3\<close>, a paragraph for
  \<^verbatim>\<open>p\<close>, a picture for an image that could be fetched, a paragraph for character data
  that is walked as a child, nothing otherwise.\<close>

fun emit :: "env \<Rightarrow> string \<Rightarrow> node \<Rightarrow> block list" where
  "emit e base (Text t) = [Paragraph t]"
| "emit e base (Tag n a cs) =
     (if n = ''h1'' then [Heading (get_text (Tag n a cs)) 1]
      else if n = ''h2'' then [Heading (get_text (Tag n a cs)) 2]
      else if n = ''h3'' then [Heading (get_text (Tag n a cs)) 3]
      else if n = ''p'' then [Paragraph (get_text (Tag n a cs))]
      else (case image_request e base (Tag n a cs) of
              None \<Rightarrow> []
            | Some u \<Rightarrow> (case requests_get e u of Inr r \<Rightarrow> [Picture (resp_content r) 4] | Inl err \<Rightarrow> [])))"

text \<open>The notices that belong to one node: a warning for an image that could not be
  fetched.\<close>

definition complain :: "env \<Rightarrow> string \<Rightarrow> node \<Rightarrow> notice list" where
  "complain e base x =
     (case image_request e base x of
        None \<Rightarrow> []
      | Some u \<Rightarrow> (case requests_get e u of Inr r \<Rightarrow> [] | Inl err \<Rightarrow> [image_warning u err]))"

definition blocks_of :: "env \<Rightarrow> string \<Rightarrow> node list \<Rightarrow> block list" where
  "blocks_of e base ns = concat (map (emit e base) (descendants ns))"

definition notices_of :: "env \<Rightarrow> string \<Rightarrow> node list \<Rightarrow> notice list" where
  "notices_of e base ns = concat (map (complain e base) (descendants ns))"



text \<open>The image URLs the walk requests, in document order, and those among them whose
  request fails.\<close>

definition attempted_images :: "env \<Rightarrow> string \<Rightarrow> node list \<Rightarrow> string list" where
  "attempted_images e base ns = List.map_filter (image_request e base) (descendants ns)"

definition failed_images :: "env \<Rightarrow> string \<Rightarrow> node list \<Rightarrow> string list" where
  "failed_images e base ns = filter (\<lambda>u. isl (requests_get e u)) (attempted_images e base ns)"

section \<open>Notions the properties are stated with\<close>


text \<open>What \<^verbatim>\<open>include_css\<close> makes of a forest, and the warnings it shows on the way.\<close>

definition inlined :: "env \<Rightarrow> string \<Rightarrow> node list \<Rightarrow> node list" where
  "inlined e base ns = fst (include_css e ns base [])"

definition css_warnings :: "env \<Rightarrow> string \<Rightarrow> node list \<Rightarrow> notice list" where
  "css_warnings e base ns = snd (include_css e ns base [])"

text \<open>The Content Selector's priority order as a table, and the first entry of a table
  that finds something.\<close>

definition selectors :: "(node \<Rightarrow> bool) list" where
  "selectors =
     [named ''main'', named ''article'', div_class ''main-content'', div_id ''main-content'',
      div_class ''content'', div_id ''content'', div_class ''primary-content'']"

fun first_match :: "(node \<Rightarrow> bool) list \<Rightarrow> node list \<Rightarrow> node option" where
  "first_match [] soup = None"
| "first_match (p # ps) soup =
     (case find p soup of Some m \<Rightarrow> Some m | None \<Rightarrow> first_match ps soup)"


text \<open>
  \<open>emb xs ys\<close>: the forest \<open>ys\<close> is \<open>xs\<close> with nodes put in. Every node of \<open>xs\<close> is in
  \<open>ys\<close> with its name, its attributes and its text, in the same order and under the same
  parent; nothing of \<open>xs\<close> is missing or changed.
\<close>

inductive emb :: "node list \<Rightarrow> node list \<Rightarrow> bool" where
  emb_Nil: "emb [] []"
| emb_new: "emb xs ys \<Longrightarrow> emb xs (y # ys)"
| emb_Text: "emb xs ys \<Longrightarrow> emb (Text t # xs) (Text t # ys)"
| emb_Tag: "emb cs ds \<Longrightarrow> emb xs ys \<Longrightarrow> emb (Tag n a cs # xs) (Tag n a ds # ys)"

text \<open>A forest as the parser builds it: no empty character data, no two character-data
  nodes side by side.\<close>

fun starts_with_text :: "node list \<Rightarrow> bool" where
  "starts_with_text (Text t # ns) = True"
| "starts_with_text (Tag n a cs # ns) = False"
| "starts_with_text [] = False"

fun normal :: "node list \<Rightarrow> bool" where
  "normal [] = True"
| "normal (Text t # ns) = (t \<noteq> [] \<and> \<not> starts_with_text ns \<and> normal ns)"
| "normal (Tag n a cs # ns) = (normal cs \<and> normal ns)"

text \<open>The soup after the first step of \<^verbatim>\<open>style_html_content\<close>.\<close>

definition with_html :: "node list \<Rightarrow> node list" where
  "with_html s = (if find (named ''html'') s = None then Tag ''html'' [] [] # s else s)"



text \<open>The variables of \<^verbatim>\<open>main\<close> before the loop.\<close>

definition start :: app where
  "start = \<lparr>combined_html_content = [], base_url = None, log = []\<rparr>"



section \<open>A small web for concrete runs\<close>

definition page_one :: html where
  "page_one =
     [Tag ''html'' []
        [Tag ''head'' [] [Tag ''title'' [] [Text ''One'']],
         Tag ''body'' []
           [Tag ''nav'' [] [Tag ''a'' [(''href'', ''/'')] [Text ''Home'']],
            Tag ''main'' []
              [Tag ''h1'' [] [Text ''Title''], Tag ''p'' [] [Text ''Body text'']]]]]"

definition page_pics :: html where
  "page_pics =
     [Tag ''main'' [] [Tag ''img'' [(''src'', ''pic.png'')] [], Tag ''p'' [] [Text ''Caption'']]]"

definition page_css :: html where
  "page_css =
     [Tag ''html'' []
        [Tag ''head'' []
           [Tag ''link'' [(''rel'', ''stylesheet''), (''href'', ''missing.css'')] [],
            Tag ''link'' [(''rel'', ''stylesheet''), (''href'', ''ok.css'')] []],
         Tag ''body'' [] [Tag ''p'' [] [Text ''Styled'']]]]"

definition page_last :: html where
  "page_last = [Tag ''main'' [] [Tag ''p'' [] [Text ''Last'']]]"

definition not_found :: string where
  "not_found = ''404 Client Error: Not Found''"

text \<open>Four pages, a stylesheet and an image; every other request fails. The URL resolution is the
  library's on the URLs used here: a site root stays itself, a relative name is put
  after it.\<close>

definition web :: "bool \<Rightarrow> env" where
  "web named_text =
     \<lparr>requests_get = (\<lambda>u.
          if u = ''http://one.example/'' then
            Inr \<lparr>resp_text = ''<html>...</html>'', resp_markup = page_one, resp_content = []\<rparr>
          else if u = ''http://pics.example/'' then
            Inr \<lparr>resp_text = ''<main>...</main>'', resp_markup = page_pics, resp_content = []\<rparr>
          else if u = ''http://last.example/'' then
            Inr \<lparr>resp_text = ''<main>...</main>'', resp_markup = page_last, resp_content = []\<rparr>
          else if u = ''http://css.example/'' then
            Inr \<lparr>resp_text = ''<html>...</html>'', resp_markup = page_css, resp_content = []\<rparr>
          else if u = ''http://css.example/ok.css'' then
            Inr \<lparr>resp_text = ''p { color: red; }'', resp_markup = [], resp_content = []\<rparr>
          else if u = ''http://last.example/pic.png'' then
            Inr \<lparr>resp_text = [], resp_markup = [], resp_content = [137, 80, 78, 71]\<rparr>
          else Inl not_found),
      urljoin = (\<lambda>b u. if u = ''/'' then b else if startswith u ''http'' then u else b @ u),
      text_has_name = named_text,
      write_pdf = (\<lambda>h. Inl ''no renderer'')\<rparr>"


section \<open>Properties of the Block Translator\<close>

lemma blocks_of_simps [simp]:
  "blocks_of e b [] = []"
  "blocks_of e b (Text t # ns) = Paragraph t # blocks_of e b ns"
  "blocks_of e b (Tag n a cs # ns) = emit e b (Tag n a cs) @ blocks_of e b cs @ blocks_of e b ns"
  by (simp_all add: blocks_of_def)

lemma notices_of_simps [simp]:
  "notices_of e b [] = []"
  "notices_of e b (Text t # ns) = notices_of e b ns"
  "notices_of e b (Tag n a cs # ns) = complain e b (Tag n a cs) @ notices_of e b cs @ notices_of e b ns"
  by (simp_all add: notices_of_def complain_def image_request_def)

lemma descendants_append: "descendants (xs @ ys) = descendants xs @ descendants ys"
  by (induction xs rule: descendants.induct) simp_all

lemma blocks_of_append: "blocks_of e b (xs @ ys) = blocks_of e b xs @ blocks_of e b ys"
  by (simp add: blocks_of_def descendants_append)

lemma notices_of_append: "notices_of e b (xs @ ys) = notices_of e b xs @ notices_of e b ys"
  by (simp add: notices_of_def descendants_append)

lemma visit_Tag:
  "visit e b (Tag n a cs) d =
     d\<lparr>doc := doc d @ emit e b (Tag n a cs), st := st d @ complain e b (Tag n a cs)\<rparr>"
  by (simp add: visit_def complain_def image_request_def add_heading_def add_paragraph_def
      add_picture_def st_warning_def image_warning_def Let_def split: option.splits sum.splits)

lemma walk_char:
  "is_tag x \<longrightarrow> process_element e b x d =
     Inr (d\<lparr>doc := doc d @ blocks_of e b [x], st := st d @ notices_of e b [x]\<rparr>)"
  "process_children e b cs d =
     Inr (d\<lparr>doc := doc d @ blocks_of e b cs, st := st d @ notices_of e b cs\<rparr>)"
proof (induction e b x d and e b cs d rule: process_element_process_children.induct)
  case (2 e base_url n a cs d)
  then show ?case by (simp add: visit_Tag)
next
  case (5 e base_url n a k cs d)
  then show ?case by simp
qed (simp_all add: add_paragraph_def)


lemma body_loop_char:
  "body_loop e b xs d =
     (if text_has_name e \<and> \<not> list_all is_tag xs
      then Inl (AttributeError no_children, st d @ notices_of e b (takeWhile is_tag xs))
      else Inr (d\<lparr>doc := doc d @ blocks_of e b (filter is_tag xs),
                  st := st d @ notices_of e b (filter is_tag xs)\<rparr>))"
proof (induction xs arbitrary: d)
  case Nil
  then show ?case by simp
next
  case (Cons x xs)
  show ?case
  proof (cases x)
    case (Tag n a cs)
    then show ?thesis
      using walk_char(1) [of x e b d] Cons.IH
      by (simp add: hasattr_name_def blocks_of_append [of e b "[Tag n a cs]", simplified]
          notices_of_append [of e b "[Tag n a cs]", simplified])
  next
    case (Text t)
    then show ?thesis
      using Cons.IH by (simp add: hasattr_name_def)
  qed
qed

lemma convert_to_docx_char:
  "convert_to_docx e h b lg =
     (let body = body_of (BeautifulSoup h) in
      if text_has_name e \<and> \<not> list_all is_tag body
      then (None, lg @ notices_of e b (takeWhile is_tag body)
                  @ [Error (''Failed to generate DOCX: '' @ no_children)])
      else (Some (blocks_of e b (filter is_tag body)), lg @ notices_of e b (filter is_tag body)))"
  by (simp add: convert_to_docx_def body_loop_char Let_def)






lemma notices_of_failed_nodes:
  "concat (map (complain e b) xs) =
     map (\<lambda>u. image_warning u (projl (requests_get e u)))
       (filter (\<lambda>u. isl (requests_get e u)) (List.map_filter (image_request e b) xs))"
  by (induction xs) (auto simp: complain_def split: option.splits sum.splits)

lemma notices_of_failed:
  "notices_of e b ns = map (\<lambda>u. image_warning u (projl (requests_get e u))) (failed_images e b ns)"
  unfolding notices_of_def failed_images_def attempted_images_def by (rule notices_of_failed_nodes)











section \<open>Properties of the Asset Inliner\<close>

lemma link_step_log:
  "link_step e b x lg = (fst (link_step e b x []), lg @ snd (link_step e b x []))"
  by (simp add: link_step_def Let_def split: option.splits sum.splits)

lemma include_css_nodes_Cons:
  "include_css_nodes e b (x # xs) lg =
     (fst (include_css_node e b x lg)
        # fst (include_css_nodes e b xs (snd (include_css_node e b x lg))),
      snd (include_css_nodes e b xs (snd (include_css_node e b x lg))))"
  by (simp add: case_prod_beta)

lemma include_css_node_Tag:
  "include_css_node e b (Tag n a cs) lg =
     ((case fst (link_step e b (Tag n a cs) lg) of
         Some css \<Rightarrow> css_style_tag css
       | None \<Rightarrow> Tag n a (fst (include_css_nodes e b cs (snd (link_step e b (Tag n a cs) lg))))),
      snd (include_css_nodes e b cs (snd (link_step e b (Tag n a cs) lg))))"
  by (simp add: case_prod_beta split: option.splits)

lemma include_css_nodes_log_aux:
  assumes "\<And>x lg. x \<in> set xs \<Longrightarrow>
    include_css_node e b x lg =
      (fst (include_css_node e b x []), lg @ snd (include_css_node e b x []))"
  shows "include_css_nodes e b xs lg =
     (fst (include_css_nodes e b xs []), lg @ snd (include_css_nodes e b xs []))"
  using assms
proof (induction xs arbitrary: lg)
  case Nil
  show ?case by simp
next
  case (Cons x xs)
  let ?w = "snd (include_css_node e b x [])"
  have x: "include_css_node e b x lg = (fst (include_css_node e b x []), lg @ ?w)"
    by (rule Cons.prems) simp
  have xs: "include_css_nodes e b xs l =
      (fst (include_css_nodes e b xs []), l @ snd (include_css_nodes e b xs []))" for l
    by (rule Cons.IH) (rule Cons.prems, simp)
  show ?case
    unfolding include_css_nodes_Cons [of e b x xs lg] include_css_nodes_Cons [of e b x xs "[]"]
    by (simp add: x xs [of "lg @ ?w"] xs [of ?w])
qed

lemma include_css_node_log:
  "include_css_node e b x lg =
     (fst (include_css_node e b x []), lg @ snd (include_css_node e b x []))"
proof (induction x arbitrary: lg)
  case (Text t)
  show ?case by simp
next
  case (Tag n a cs)
  let ?w = "snd (link_step e b (Tag n a cs) [])"
  have ls: "link_step e b (Tag n a cs) lg = (fst (link_step e b (Tag n a cs) []), lg @ ?w)"
    by (rule link_step_log)
  have k: "include_css_nodes e b cs l =
      (fst (include_css_nodes e b cs []), l @ snd (include_css_nodes e b cs []))" for l
    by (rule include_css_nodes_log_aux) (rule Tag.IH)
  show ?case
    unfolding include_css_node_Tag [of e b n a cs lg] include_css_node_Tag [of e b n a cs "[]"]
    by (simp add: ls k [of "lg @ ?w"] k [of ?w] split: option.splits)
qed

lemma include_css_nodes_log:
  "include_css_nodes e b xs lg =
     (fst (include_css_nodes e b xs []), lg @ snd (include_css_nodes e b xs []))"
  by (rule include_css_nodes_log_aux) (rule include_css_node_log)

lemma include_css_eq: "include_css e ns b lg = (inlined e b ns, lg @ css_warnings e b ns)"
  unfolding include_css_def inlined_def css_warnings_def by (rule include_css_nodes_log)

lemma inlined_Nil [simp]: "inlined e b [] = []" "css_warnings e b [] = []"
  by (simp_all add: inlined_def css_warnings_def include_css_def)

lemma inlined_Cons:
  "inlined e b (x # xs) = inlined e b [x] @ inlined e b xs"
  "css_warnings e b (x # xs) = css_warnings e b [x] @ css_warnings e b xs"
  unfolding inlined_def css_warnings_def include_css_def
    include_css_nodes_Cons [of e b x xs "[]"] include_css_nodes_Cons [of e b x "[]" "[]"]
  by (simp_all add: include_css_nodes_log [of e b xs "snd (include_css_node e b x [])"])



lemma inlined_Text: "inlined e b [Text t] = [Text t]" "css_warnings e b [Text t] = []"
  by (simp_all add: inlined_def css_warnings_def include_css_def)

lemma inlined_Tag:
  "inlined e b [Tag n a k] =
     [case fst (link_step e b (Tag n a k) []) of
        Some css \<Rightarrow> css_style_tag css
      | None \<Rightarrow> Tag n a (inlined e b k)]"
  "css_warnings e b [Tag n a k] = snd (link_step e b (Tag n a k) []) @ css_warnings e b k"
  unfolding inlined_def css_warnings_def include_css_def
    include_css_nodes_Cons [of e b "Tag n a k" "[]" "[]"] include_css_node_Tag [of e b n a k "[]"]
  by (simp_all add: include_css_nodes_log [of e b k "snd (link_step e b (Tag n a k) [])"]
      split: option.splits)





section \<open>Properties of the Content Selector\<close>

lemma emb_refl: "emb xs xs"
  by (induction xs rule: descendants.induct) (auto intro: emb.intros)




lemma extract_first_match:
  "extract_main_content soup lg =
     (case first_match selectors soup of
        Some m \<Rightarrow> ([without_sidebars m], lg)
      | None \<Rightarrow> (soup, lg @ [fallback_warning]))"
  by (simp add: extract_main_content_def selectors_def por_def Let_def split: option.splits)



section \<open>Properties of the Style Normalizer\<close>

lemma find_Nil [simp]: "find p [] = None"
  by (simp add: find_def find_all_def)

lemma find_Text [simp]: "find p (Text t # ns) = find p ns"
  by (simp add: find_def find_all_def)

lemma find_append:
  "find p (xs @ ys) = (case find p xs of Some x \<Rightarrow> Some x | None \<Rightarrow> find p ys)"
  by (simp add: find_def find_all_def descendants_append split: list.splits)

lemma find_Tag:
  "find p (Tag n a cs # ns) =
     (if p (Tag n a cs) then Some (Tag n a cs)
      else (case find p cs of Some x \<Rightarrow> Some x | None \<Rightarrow> find p ns))"
  by (simp add: find_def find_all_def split: list.splits)

lemma find_None_iff:
  "find p xs = None \<longleftrightarrow> (\<forall>x \<in> set (descendants xs). is_tag x \<longrightarrow> \<not> p x)"
proof -
  have "find p xs = None \<longleftrightarrow> find_all p xs = []"
    by (simp add: find_def split: list.splits)
  then show ?thesis
    by (simp add: find_all_def filter_empty_conv)
qed

lemma on_first_None_iff: "on_first p f xs = None \<longleftrightarrow> find p xs = None"
  by (induction p f xs rule: on_first.induct) (auto simp: find_Tag split: option.splits)

lemma emb_append_new: "emb xs (xs @ [c])"
  by (induction xs rule: descendants.induct) (auto intro: emb.intros emb_refl)

lemma on_first_emb:
  assumes "\<And>n a cs. \<exists>cs'. f (Tag n a cs) = Tag n a cs' \<and> emb cs cs'"
  shows "on_first p f xs = Some ys \<Longrightarrow> emb xs ys"
proof (induction xs arbitrary: ys rule: descendants.induct)
  case 1
  then show ?case by simp
next
  case (2 t ns)
  then show ?case by (auto intro: emb.intros)
next
  case (3 n a cs ns)
  show ?case
  proof (cases "p (Tag n a cs)")
    case True
    obtain cs' where "f (Tag n a cs) = Tag n a cs'" "emb cs cs'"
      using assms [of n a cs] by blast
    with True "3.prems" show ?thesis
      by (auto intro: emb.intros emb_refl)
  next
    case False
    with 3 show ?thesis
      by (auto intro: emb.intros emb_refl split: option.splits)
  qed
qed

lemma emb_trans: "emb ys zs \<Longrightarrow> emb xs ys \<Longrightarrow> emb xs zs"
proof (induction ys zs arbitrary: xs rule: emb.induct)
  case emb_Nil
  then show ?case by simp
next
  case (emb_new ys zs z)
  then show ?case by (auto intro: emb.intros)
next
  case (emb_Text ys zs t)
  from emb_Text.prems show ?case
    by (cases rule: emb.cases) (auto intro: emb.intros emb_Text.IH)
next
  case (emb_Tag cs ds ys zs n a)
  from emb_Tag.prems show ?case
    by (cases rule: emb.cases) (auto intro: emb.intros emb_Tag.IH)
qed


lemma normal_BeautifulSoup: "normal (BeautifulSoup xs)"
  by (induction xs rule: BeautifulSoup.induct) auto

lemma BeautifulSoup_normal: "normal xs \<Longrightarrow> BeautifulSoup xs = xs"
  by (induction xs rule: BeautifulSoup.induct) auto

lemma on_first_starts:
  assumes "\<And>n a cs. f (Tag n a cs) = Tag n a (g cs)"
  shows "on_first p f xs = Some ys \<Longrightarrow> starts_with_text ys = starts_with_text xs"
  using assms by (cases xs rule: descendants.cases) (auto split: if_splits option.splits)

lemma on_first_normal:
  assumes f: "\<And>n a cs. f (Tag n a cs) = Tag n a (g cs)"
    and g: "\<And>cs. normal cs \<Longrightarrow> normal (g cs)"
  shows "on_first p f xs = Some ys \<Longrightarrow> normal xs \<Longrightarrow> normal ys"
proof (induction xs arbitrary: ys rule: descendants.induct)
  case 1
  then show ?case by simp
next
  case (2 t ns)
  then obtain ns' where ns': "on_first p f ns = Some ns'" "ys = Text t # ns'"
    by auto
  with 2 on_first_starts [OF f ns'(1)] show ?case
    by simp
next
  case (3 n a cs ns)
  then show ?case
    by (auto simp: f g split: if_splits option.splits)
qed

lemma on_first_find:
  assumes f: "\<And>n a cs. f (Tag n a cs) = Tag n a (g cs)"
    and p: "\<And>n a cs cs'. p (Tag n a cs) = p (Tag n a cs')"
  shows "on_first p f xs = Some ys \<Longrightarrow>
    \<exists>n a cs. find p xs = Some (Tag n a cs) \<and> find p ys = Some (Tag n a (g cs))"
proof (induction xs arbitrary: ys rule: descendants.induct)
  case 1
  then show ?case by simp
next
  case (2 t ns)
  then show ?case by auto
next
  case (3 n a cs ns)
  show ?case
  proof (cases "p (Tag n a cs)")
    case True
    then have "p (Tag n a (g cs))" using p by blast
    with True "3.prems" show ?thesis
      by (auto simp: f find_Tag)
  next
    case False
    note np = this
    show ?thesis
    proof (cases "on_first p f cs")
      case None
      then have "find p cs = None" by (simp add: on_first_None_iff)
      with None np 3 show ?thesis
        by (auto simp: find_Tag)
    next
      case (Some cs')
      then obtain m b k where "find p cs = Some (Tag m b k)" "find p cs' = Some (Tag m b (g k))"
        using "3.IH"(1) by blast
      moreover have "\<not> p (Tag n a cs')" using np p by blast
      ultimately show ?thesis
        using Some np "3.prems" by (auto simp: find_Tag)
    qed
  qed
qed

lemma on_first_count:
  assumes f: "\<And>n a cs. f (Tag n a cs) = Tag n a (g cs)"
    and g: "\<And>cs. length (descendants (g cs)) = length (descendants cs) + k"
  shows "on_first p f xs = Some ys \<Longrightarrow> length (descendants ys) = length (descendants xs) + k"
proof (induction xs arbitrary: ys rule: descendants.induct)
  case 1
  then show ?case by simp
next
  case (2 t ns)
  then show ?case by auto
next
  case (3 n a cs ns)
  then show ?case
    by (auto simp: f g split: if_splits option.splits)
qed

lemma emb_has_named:
  "emb xs ys \<Longrightarrow> \<exists>x \<in> set (descendants xs). tag_name x = Some n
     \<Longrightarrow> \<exists>y \<in> set (descendants ys). tag_name y = Some n"
proof (induction rule: emb.induct)
  case emb_Nil
  then show ?case by simp
next
  case (emb_new xs ys y)
  then show ?case by (cases y) auto
next
  case (emb_Text xs ys t)
  then show ?case by auto
next
  case (emb_Tag cs ds xs ys m a)
  then show ?case by auto
qed

lemma find_named_iff:
  "find (named n) xs \<noteq> None \<longleftrightarrow> (\<exists>x \<in> set (descendants xs). tag_name x = Some n)"
proof -
  have "is_tag x \<and> named n x \<longleftrightarrow> tag_name x = Some n" for x
    by (cases x) (simp_all add: named_def)
  then show ?thesis
    by (simp add: find_None_iff)
qed

lemma emb_find_named:
  "emb xs ys \<Longrightarrow> find (named n) xs \<noteq> None \<Longrightarrow> find (named n) ys \<noteq> None"
  unfolding find_named_iff by (rule emb_has_named)

lemma insert0_eq: "insert0 c (Tag n a cs) = Tag n a ((#) c cs)"
  by simp

lemma append_child_eq: "append_child c (Tag n a cs) = Tag n a ((\<lambda>k. k @ [c]) cs)"
  by simp

lemma named_children: "named m (Tag n a cs) = named m (Tag n a cs')"
  by (simp add: named_def)


lemma find_Some_holds: "find p xs = Some x \<Longrightarrow> is_tag x \<and> p x"
proof -
  assume "find p xs = Some x"
  then obtain r where "find_all p xs = x # r"
    by (auto simp: find_def split: list.splits)
  then have "x \<in> set (filter (\<lambda>x. is_tag x \<and> p x) (descendants xs))"
    by (simp add: find_all_def)
  then show ?thesis by simp
qed

lemma insert_then_append:
  assumes "find (named ''head'') xs = None"
    and "on_first (named ''html'') (insert0 (Tag ''head'' [] [])) xs = Some ys"
  shows "on_first (named ''head'') (append_child c) ys =
         on_first (named ''html'') (insert0 (Tag ''head'' [] [c])) xs"
  using assms
proof (induction xs arbitrary: ys rule: descendants.induct)
  case 1
  then show ?case by simp
next
  case (2 t ns)
  then show ?case by auto
next
  case (3 n a cs ns)
  from "3.prems"(1) have nh: "\<not> named ''head'' (Tag n a cs)"
    and hc: "find (named ''head'') cs = None" and hn: "find (named ''head'') ns = None"
    by (auto simp: find_Tag split: if_splits option.splits)
  have nh': "\<not> named ''head'' (Tag n a k)" for k
    using nh by (simp add: named_def)
  show ?case
  proof (cases "named ''html'' (Tag n a cs)")
    case True
    with "3.prems"(2) nh' show ?thesis
      by (auto simp: named_def)
  next
    case False
    show ?thesis
    proof (cases "on_first (named ''html'') (insert0 (Tag ''head'' [] [])) cs")
      case None
      then have "find (named ''html'') cs = None"
        by (simp add: on_first_None_iff)
      then have n2: "on_first (named ''html'') (insert0 (Tag ''head'' [] [c])) cs = None"
        by (simp add: on_first_None_iff)
      have n3: "on_first (named ''head'') (append_child c) cs = None"
        using hc by (simp add: on_first_None_iff)
      from None False "3.prems"(2) obtain ns' where
        ns': "on_first (named ''html'') (insert0 (Tag ''head'' [] [])) ns = Some ns'"
        "ys = Tag n a cs # ns'"
        by auto
      from "3.IH"(2) [OF hn ns'(1)] show ?thesis
        using False n2 n3 nh' ns'(2) by simp
    next
      case (Some cs')
      with False "3.prems"(2) have ys: "ys = Tag n a cs' # ns"
        by simp
      from Some have "find (named ''html'') cs \<noteq> None"
        by (metis on_first_None_iff option.distinct(1))
      then obtain cs'' where
        c2: "on_first (named ''html'') (insert0 (Tag ''head'' [] [c])) cs = Some cs''"
        using on_first_None_iff [of "named ''html''" "insert0 (Tag ''head'' [] [c])" cs] by auto
      from "3.IH"(1) [OF hc Some] c2 show ?thesis
        using False nh' ys by simp
    qed
  qed
qed

lemma normal_append_tag: "normal (cs @ [Tag n a k]) = (normal cs \<and> normal k)"
proof (induction cs rule: normal.induct)
  case 1
  show ?case by simp
next
  case (2 t ns)
  have "starts_with_text (ns @ [Tag n a k]) = starts_with_text ns"
    by (cases ns rule: starts_with_text.cases) simp_all
  with 2 show ?case by auto
next
  case (3 m b cs ns)
  then show ?case by auto
qed

lemma style_css_nonempty: "style_css \<noteq> []"
  by (simp add: style_css_def)

lemma normal_style: "normal cs \<Longrightarrow> normal (cs @ [style_tag])"
  by (simp add: style_tag_def normal_append_tag style_css_nonempty)

text \<open>The three steps of \<^verbatim>\<open>style_html_content\<close>, none of which can fail.\<close>

lemma style_run:
  fixes h :: html
  defines "s1 \<equiv> (if find (named ''html'') (BeautifulSoup h) = None
                  then Tag ''html'' [] [] # BeautifulSoup h else BeautifulSoup h)"
  shows "\<exists>s2 out.
     (if find (named ''head'') s1 = None
      then on_first (named ''html'') (insert0 (Tag ''head'' [] [])) s1 else Some s1) = Some s2
     \<and> on_first (named ''head'') (append_child style_tag) s2 = Some out
     \<and> style_html_content h = Inr out"
proof -
  let ?step2 = "if find (named ''head'') s1 = None
      then on_first (named ''html'') (insert0 (Tag ''head'' [] [])) s1 else Some s1"
  have run: "style_html_content h =
     (case ?step2 of
        None \<Rightarrow> Inl (none_has_no ''insert'')
      | Some soup \<Rightarrow>
          (case on_first (named ''head'') (append_child style_tag) soup of
             None \<Rightarrow> Inl (none_has_no ''append'')
           | Some soup \<Rightarrow> Inr soup))"
    unfolding style_html_content_def Let_def s1_def by (rule refl)
  have html: "find (named ''html'') s1 \<noteq> None"
    by (simp add: s1_def find_Tag named_def)
  have "\<exists>s2 out. ?step2 = Some s2 \<and> on_first (named ''head'') (append_child style_tag) s2 = Some out"
  proof (cases "find (named ''head'') s1 = None")
    case True
    from html obtain s2 where
      s2: "on_first (named ''html'') (insert0 (Tag ''head'' [] [])) s1 = Some s2"
      using on_first_None_iff [of "named ''html''" "insert0 (Tag ''head'' [] [])" s1] by auto
    from html obtain out where
      out: "on_first (named ''html'') (insert0 (Tag ''head'' [] [style_tag])) s1 = Some out"
      using on_first_None_iff [of "named ''html''" "insert0 (Tag ''head'' [] [style_tag])" s1] by auto
    have "on_first (named ''head'') (append_child style_tag) s2 = Some out"
      using insert_then_append [OF True s2, of style_tag] out by simp
    moreover have "?step2 = Some s2"
      using True s2 by simp
    ultimately show ?thesis by blast
  next
    case False
    then obtain out where "on_first (named ''head'') (append_child style_tag) s1 = Some out"
      using on_first_None_iff [of "named ''head''" "append_child style_tag" s1] by auto
    moreover have "?step2 = Some s1"
      by (rule if_not_P) (rule False)
    ultimately show ?thesis by blast
  qed
  then obtain s2 out where "?step2 = Some s2"
    "on_first (named ''head'') (append_child style_tag) s2 = Some out"
    by blast
  moreover from this have "style_html_content h = Inr out"
    by (simp only: run option.case)
  ultimately show ?thesis by blast
qed


lemma emb_insert0: "\<exists>cs'. insert0 c (Tag n a cs) = Tag n a cs' \<and> emb cs cs'"
  by (auto intro: emb.intros emb_refl)

lemma emb_append_child: "\<exists>cs'. append_child c (Tag n a cs) = Tag n a cs' \<and> emb cs cs'"
  by (auto intro: emb_append_new)

lemma named_Tag_iff: "named m (Tag n a cs) \<longleftrightarrow> n = m"
  by (simp add: named_def)

lemma find_named_Some:
  "find (named m) xs = Some (Tag n a cs) \<Longrightarrow> n = m"
  using find_Some_holds [of "named m" xs "Tag n a cs"] by (simp add: named_def)

lemma count_style: "length (descendants (cs @ [style_tag])) = length (descendants cs) + 2"
  by (simp add: descendants_append style_tag_def)

text \<open>What the steps of \<^verbatim>\<open>style_html_content\<close> leave behind, for use below.\<close>

lemma style_steps:
  assumes "style_html_content h = Inr out"
  shows "\<exists>s2.
     (find (named ''head'') (with_html (BeautifulSoup h)) = None \<longrightarrow>
        on_first (named ''html'') (insert0 (Tag ''head'' [] [])) (with_html (BeautifulSoup h)) = Some s2)
     \<and> (find (named ''head'') (with_html (BeautifulSoup h)) \<noteq> None \<longrightarrow>
          s2 = with_html (BeautifulSoup h))
     \<and> on_first (named ''head'') (append_child style_tag) s2 = Some out"
proof -
  let ?s1 = "with_html (BeautifulSoup h)"
  from style_run [of h] assms obtain s2 where
    a: "(if find (named ''head'') ?s1 = None
      then on_first (named ''html'') (insert0 (Tag ''head'' [] [])) ?s1 else Some ?s1) = Some s2"
    and b: "on_first (named ''head'') (append_child style_tag) s2 = Some out"
    unfolding with_html_def by auto
  have c1: "find (named ''head'') ?s1 = None \<longrightarrow>
           on_first (named ''html'') (insert0 (Tag ''head'' [] [])) ?s1 = Some s2"
    using a by (auto split: if_splits)
  have c2: "find (named ''head'') ?s1 \<noteq> None \<longrightarrow> s2 = ?s1"
    using a by (auto split: if_splits)
  show ?thesis
    by (rule exI [of _ s2]) (intro conjI c1 c2 b)
qed

lemma style_embs:
  assumes "find (named ''head'') (with_html s) = None \<longrightarrow>
           on_first (named ''html'') (insert0 (Tag ''head'' [] [])) (with_html s) = Some s2"
    and "find (named ''head'') (with_html s) \<noteq> None \<longrightarrow> s2 = with_html s"
    and "on_first (named ''head'') (append_child style_tag) s2 = Some out"
  shows "emb s (with_html s)" and "emb (with_html s) s2" and "emb s2 out"
    and "find (named ''html'') (with_html s) \<noteq> None"
proof -
  show "emb s (with_html s)"
    unfolding with_html_def by (auto intro: emb.intros emb_refl)
  show "emb (with_html s) s2"
  proof (cases "find (named ''head'') (with_html s) = None")
    case True
    with assms(1) have "on_first (named ''html'') (insert0 (Tag ''head'' [] [])) (with_html s) = Some s2"
      by blast
    then show ?thesis
      by (rule on_first_emb [OF emb_insert0])
  next
    case False
    with assms(2) have "s2 = with_html s" by blast
    then show ?thesis by (simp only: emb_refl)
  qed
  show "emb s2 out"
    using assms(3) by (rule on_first_emb [OF emb_append_child])
  show "find (named ''html'') (with_html s) \<noteq> None"
    unfolding with_html_def by (simp add: find_Tag named_def)
qed


lemma style_has_html:
  assumes "style_html_content h = Inr out"
  shows "find (named ''html'') out \<noteq> None"
proof -
  from style_steps [OF assms] obtain s2 where st0:
    "(find (named ''head'') (with_html (BeautifulSoup h)) = None \<longrightarrow>
        on_first (named ''html'') (insert0 (Tag ''head'' [] [])) (with_html (BeautifulSoup h)) = Some s2)
       \<and> (find (named ''head'') (with_html (BeautifulSoup h)) \<noteq> None \<longrightarrow>
          s2 = with_html (BeautifulSoup h))
       \<and> (on_first (named ''head'') (append_child style_tag) s2 = Some out)"
    ..
  note st = conjunct1 [OF st0] conjunct1 [OF conjunct2 [OF st0]] conjunct2 [OF conjunct2 [OF st0]]
  note e = style_embs [OF st]
  have "emb (with_html (BeautifulSoup h)) out" by (rule emb_trans [OF e(3) e(2)])
  then show ?thesis using e(4) by (rule emb_find_named)
qed

lemma style_has_head:
  assumes "style_html_content h = Inr out"
  shows "\<exists>a cs. find (named ''head'') out = Some (Tag ''head'' a (cs @ [style_tag]))"
proof -
  from style_steps [OF assms] obtain s2 where
    out: "on_first (named ''head'') (append_child style_tag) s2 = Some out"
    by blast
  from on_first_find [OF append_child_eq named_children out]
  obtain n a cs where f: "find (named ''head'') s2 = Some (Tag n a cs)"
    "find (named ''head'') out = Some (Tag n a (cs @ [style_tag]))"
    by blast
  from f(1) have "n = ''head''" by (rule find_named_Some)
  with f(2) show ?thesis by blast
qed

lemma normal_with_html: "normal s \<Longrightarrow> normal (with_html s)"
  by (simp add: with_html_def)

lemma style_normal:
  assumes "style_html_content h = Inr out"
  shows "normal out"
proof -
  let ?s1 = "with_html (BeautifulSoup h)"
  from style_steps [OF assms] obtain s2 where st0:
    "(find (named ''head'') ?s1 = None \<longrightarrow>
        on_first (named ''html'') (insert0 (Tag ''head'' [] [])) ?s1 = Some s2)
       \<and> (find (named ''head'') ?s1 \<noteq> None \<longrightarrow> s2 = ?s1)
       \<and> (on_first (named ''head'') (append_child style_tag) s2 = Some out)"
    ..
  note st = conjunct1 [OF st0] conjunct1 [OF conjunct2 [OF st0]] conjunct2 [OF conjunct2 [OF st0]]
  have a: "normal ?s1"
    by (simp add: normal_with_html normal_BeautifulSoup)
  have b: "normal s2"
  proof (cases "find (named ''head'') ?s1 = None")
    case True
    with st(1) have "on_first (named ''html'') (insert0 (Tag ''head'' [] [])) ?s1 = Some s2"
      by blast
    from on_first_normal [OF insert0_eq _ this a] show ?thesis by simp
  next
    case False
    with st(2) a show ?thesis by simp
  qed
  from on_first_normal [OF append_child_eq _ st(3) b] show ?thesis
    by (simp add: normal_style)
qed











text \<open>
  Claim C9. Applied to its own output, \<^verbatim>\<open>style_html_content\<close> returns, and all it does is
  append one more style block to the first \<^verbatim>\<open>head\<close> element: the first result is in the
  second with nothing missing or changed, the second has two nodes more (the style
  element and its text), and the \<^verbatim>\<open>head\<close> that ended with one style block ends with two.
\<close>

theorem style_twice:
  assumes "style_html_content h = Inr out"
  shows "\<exists>out2. style_html_content out = Inr out2
     \<and> on_first (named ''head'') (append_child style_tag) out = Some out2
     \<and> emb out out2
     \<and> length (descendants out2) = length (descendants out) + 2
     \<and> (\<exists>a cs. find (named ''head'') out = Some (Tag ''head'' a (cs @ [style_tag]))
              \<and> find (named ''head'') out2 = Some (Tag ''head'' a (cs @ [style_tag, style_tag])))"
proof -
  have bs: "BeautifulSoup out = out"
    by (rule BeautifulSoup_normal [OF style_normal [OF assms]])
  have html: "find (named ''html'') out \<noteq> None"
    by (rule style_has_html [OF assms])
  from style_has_head [OF assms] obtain a cs where
    head: "find (named ''head'') out = Some (Tag ''head'' a (cs @ [style_tag]))"
    by blast
  have wh: "with_html out = out"
    using html by (simp add: with_html_def)
  from style_run [of out] obtain out2 where out2: "style_html_content out = Inr out2"
    by blast
  from style_steps [OF out2] obtain s2 where st0:
    "(find (named ''head'') (with_html (BeautifulSoup out)) = None \<longrightarrow>
        on_first (named ''html'') (insert0 (Tag ''head'' [] [])) (with_html (BeautifulSoup out)) = Some s2)
       \<and> (find (named ''head'') (with_html (BeautifulSoup out)) \<noteq> None \<longrightarrow>
            s2 = with_html (BeautifulSoup out))
       \<and> (on_first (named ''head'') (append_child style_tag) s2 = Some out2)"
    ..
  have "find (named ''head'') (with_html (BeautifulSoup out)) \<noteq> None"
    by (simp add: bs wh head)
  from mp [OF conjunct1 [OF conjunct2 [OF st0]] this] have "s2 = out"
    by (simp add: bs wh)
  with st0 have step: "on_first (named ''head'') (append_child style_tag) out = Some out2"
    by simp
  have e: "emb out out2"
    using step by (rule on_first_emb [OF emb_append_child])
  have c: "length (descendants out2) = length (descendants out) + 2"
    by (rule on_first_count [OF append_child_eq count_style step])
  from on_first_find [OF append_child_eq named_children step] head
  have f: "find (named ''head'') out2 = Some (Tag ''head'' a (cs @ [style_tag, style_tag]))"
    by auto
  show ?thesis
    using out2 step e c head f by blast
qed

text \<open>The styled \<^verbatim>\<open>main\<close> fragment, styled again: a second style block in the \<^verbatim>\<open>head\<close>,
  everything else as it was.\<close>

theorem style_twice_witness:
  "style_html_content
     [Tag ''html'' [] [Tag ''head'' [] [style_tag]], Tag ''main'' [] [Tag ''p'' [] [Text ''Body'']]] =
   Inr [Tag ''html'' [] [Tag ''head'' [] [style_tag, style_tag]],
        Tag ''main'' [] [Tag ''p'' [] [Text ''Body'']]]"
proof -
  let ?h = "[Tag ''main'' [] [Tag ''p'' [] [Text ''Body'']]]"
  let ?out = "[Tag ''html'' [] [Tag ''head'' [] [style_tag]], Tag ''main'' [] [Tag ''p'' [] [Text ''Body'']]]"
  have first: "style_html_content ?h = Inr ?out"
    by (simp add: style_html_content_def find_Tag named_def)
  from style_twice [OF first] obtain out2 where
    "style_html_content ?out = Inr out2"
    "on_first (named ''head'') (append_child style_tag) ?out = Some out2"
    by blast
  then show ?thesis
    by (simp add: named_def)
qed

section \<open>Properties of the Pipeline Orchestrator\<close>


lemma BeautifulSoup_tag: "\<exists>x \<in> set xs. is_tag x \<Longrightarrow> BeautifulSoup xs \<noteq> []"
  by (induction xs rule: BeautifulSoup.induct) auto

lemma truthy_tag: "\<exists>x \<in> set xs. is_tag x \<Longrightarrow> truthy xs"
  unfolding truthy_def by (rule BeautifulSoup_tag)














lemma inlined_id:
  "\<forall>x \<in> set (descendants ns). \<not> is_stylesheet_link x \<Longrightarrow>
     inlined e b ns = ns \<and> css_warnings e b ns = []"
proof (induction ns rule: descendants.induct)
  case 1
  show ?case by simp
next
  case (2 t ns)
  then show ?case
    using inlined_Cons [of e b "Text t" ns] by (simp add: inlined_Text)
next
  case (3 n a cs ns)
  then have "link_step e b (Tag n a cs) [] = (None, [])"
    by (simp add: link_step_def)
  with 3 show ?case
    using inlined_Cons [of e b "Tag n a cs" ns] by (simp add: inlined_Tag)
qed

lemma BeautifulSoup_idem: "BeautifulSoup (BeautifulSoup xs) = BeautifulSoup xs"
  by (rule BeautifulSoup_normal [OF normal_BeautifulSoup])

text \<open>One turn of the loop for a page without stylesheet links that has a \<^verbatim>\<open>main\<close>
  element.\<close>

lemma process_url_main:
  assumes "url \<noteq> []" and "requests_get e url = Inr r" and "resp_text r \<noteq> []"
    and "\<forall>x \<in> set (descendants (BeautifulSoup (resp_markup r))). \<not> is_stylesheet_link x"
    and "find (named ''main'') (BeautifulSoup (resp_markup r)) = Some m"
    and "style_html_content [without_sidebars m] = Inr styled"
  shows "process_url e url s =
     Inr \<lparr>combined_html_content = combined_html_content s @ styled,
          base_url = Some (urljoin e url ''/''), log = log s\<rparr>"
proof -
  let ?soup = "BeautifulSoup (resp_markup r)"
  have ic: "include_css e ?soup (urljoin e url ''/'') (log s) = (?soup, log s)"
    using inlined_id [OF assms(4), of e "urljoin e url ''/''"] by (simp add: include_css_eq)
  have em: "extract_main_content (BeautifulSoup ?soup) (log s) = ([without_sidebars m], log s)"
    by (simp add: BeautifulSoup_idem extract_first_match selectors_def assms(5))
  from find_Some_holds [OF assms(5)] have "is_tag (without_sidebars m)"
    by (cases m) simp_all
  then have t: "truthy [without_sidebars m]"
    by (intro truthy_tag) simp
  show ?thesis
    using assms(1-3) ic em t assms(6)
    by (simp add: process_url_def fetch_webpage_def Let_def)
qed



text \<open>The run of \<^verbatim>\<open>main\<close> on two URLs, the first a page without stylesheet links whose
  \<^verbatim>\<open>main\<close> element holds a heading and a paragraph, the second unreachable.\<close>

lemma main_two_urls:
  assumes "u1 \<noteq> []" and "u2 \<noteq> []"
    and "requests_get e u1 = Inr r" and "resp_text r \<noteq> []"
    and "\<forall>x \<in> set (descendants (BeautifulSoup (resp_markup r))). \<not> is_stylesheet_link x"
    and "find (named ''main'') (BeautifulSoup (resp_markup r)) =
           Some (Tag ''main'' a [Tag ''h1'' a1 [Text ''Title''], Tag ''p'' a2 [Text ''Body text'']])"
    and "requests_get e u2 = Inl err"
  shows "main e [u1, u2] DOCX =
     Inr (Some (DocxFile
            [Paragraph style_css, Heading ''Title'' 1, Paragraph ''Title'',
             Paragraph ''Body text'', Paragraph ''Body text'']),
          [Error (''Failed to retrieve the webpage: '' @ err), page_warning u2,
           Success ''DOCX generated successfully!''])"
proof -
  let ?m = "Tag ''main'' a [Tag ''h1'' a1 [Text ''Title''], Tag ''p'' a2 [Text ''Body text'']]"
  let ?h = "Tag ''html'' [] [Tag ''head'' [] [style_tag]]"
  let ?b = "urljoin e u1 ''/''"
  have p1: "process_url e u1 start =
      Inr \<lparr>combined_html_content = combined_html_content start @ [?h, ?m],
           base_url = Some ?b, log = log start\<rparr>"
    by (rule process_url_main [OF assms(1,3,4,5,6)])
       (simp add: style_html_content_def find_Tag named_def sidebar_names_def)
  let ?s1 = "\<lparr>combined_html_content = [?h, ?m], base_url = Some ?b, log = []\<rparr>"
  from p1 have p1': "process_url e u1 start = Inr ?s1"
    by (simp add: start_def)
  have p2: "process_url e u2 ?s1 =
      Inr (?s1\<lparr>log := [Error (''Failed to retrieve the webpage: '' @ err), page_warning u2]\<rparr>)"
    using assms(2,7) by (simp add: process_url_def fetch_webpage_def)
  have run: "process_urls e [u1, u2] start =
      Inr \<lparr>combined_html_content = [?h, ?m], base_url = Some ?b,
           log = [Error (''Failed to retrieve the webpage: '' @ err), page_warning u2]\<rparr>"
    using p1' p2 by simp
  have t: "truthy [?h, ?m]"
    by (intro truthy_tag) simp
  have c: "convert_to_docx e [?h, ?m] ?b lg =
      (Some [Paragraph style_css, Heading ''Title'' 1, Paragraph ''Title'',
             Paragraph ''Body text'', Paragraph ''Body text''], lg)" for lg
    by (simp add: convert_to_docx_char body_of_def find_Tag named_def style_tag_def
        style_css_nonempty image_request_def complain_def)
  show ?thesis
    using run t c by (simp add: main_def start_def [symmetric])
qed

lemma page_one_facts:
  "\<forall>x \<in> set (descendants (BeautifulSoup page_one)). \<not> is_stylesheet_link x"
  "find (named ''main'') (BeautifulSoup page_one) =
     Some (Tag ''main'' [] [Tag ''h1'' [] [Text ''Title''], Tag ''p'' [] [Text ''Body text'']])"
  by (simp_all add: page_one_def is_stylesheet_link_def named_def find_Tag)

text \<open>
  Claim C1, as stated, fails. The first page has a \<^verbatim>\<open>main\<close> element with the heading
  \<^verbatim>\<open>Title\<close> and the paragraph \<^verbatim>\<open>Body text\<close>, the second URL cannot be fetched. The
  document has five blocks, not two: the paragraph \<^verbatim>\<open>Body text\<close> is there twice, and
  the text of the style block and the text of the heading are paragraphs as well.
\<close>

theorem end_to_end_counterexample:
  "main (web True) [''http://one.example/'', ''http://missing.example/''] DOCX =
     Inr (Some (DocxFile
            [Paragraph style_css, Heading ''Title'' 1, Paragraph ''Title'',
             Paragraph ''Body text'', Paragraph ''Body text'']),
          [Error ''Failed to retrieve the webpage: 404 Client Error: Not Found'',
           Warning ''Failed to retrieve the webpage content for URL: http://missing.example/'',
           Success ''DOCX generated successfully!''])
   \<and> [Paragraph style_css, Heading ''Title'' 1, Paragraph ''Title'',
       Paragraph ''Body text'', Paragraph ''Body text'']
      \<noteq> [Heading ''Title'' 1, Paragraph ''Body text'']"
proof -
  have g: "requests_get (web True) ''http://one.example/'' =
      Inr \<lparr>resp_text = ''<html>...</html>'', resp_markup = page_one, resp_content = []\<rparr>"
    "requests_get (web True) ''http://missing.example/'' = Inl not_found"
    by (simp_all add: web_def)
  from main_two_urls [OF _ _ g(1) _ _ _ g(2), of "[]" "[]" "[]"] page_one_facts
  show ?thesis
    by (simp add: page_warning_def not_found_def)
qed

text \<open>
  Claim C1, amended. On the DOCX path with two URLs, where the first page has no
  stylesheet links and has a \<^verbatim>\<open>main\<close> element that holds one \<^verbatim>\<open>h1\<close> with the text \<^verbatim>\<open>Title\<close>
  and one \<^verbatim>\<open>p\<close> with the text \<^verbatim>\<open>Body text\<close>, and the fetch of the second fails: the
  document is the paragraph of the style block's text, the heading \<^verbatim>\<open>Title\<close> of level 1,
  the paragraph \<^verbatim>\<open>Title\<close>, and the paragraph \<^verbatim>\<open>Body text\<close> twice. There is one heading;
  the character data below the \<^verbatim>\<open>style\<close>, \<^verbatim>\<open>h1\<close> and \<^verbatim>\<open>p\<close> elements is walked too and gives
  a paragraph each. The notices are one error for the failed fetch, exactly one warning,
  which names the second URL, and the success message.
\<close>

theorem end_to_end_two_urls:
  assumes "u1 \<noteq> []" and "u2 \<noteq> []"
    and "requests_get e u1 = Inr r" and "resp_text r \<noteq> []"
    and "\<forall>x \<in> set (descendants (BeautifulSoup (resp_markup r))). \<not> is_stylesheet_link x"
    and "find (named ''main'') (BeautifulSoup (resp_markup r)) =
           Some (Tag ''main'' a [Tag ''h1'' a1 [Text ''Title''], Tag ''p'' a2 [Text ''Body text'']])"
    and "requests_get e u2 = Inl err"
  shows "main e [u1, u2] DOCX =
     Inr (Some (DocxFile
            [Paragraph style_css, Heading ''Title'' 1, Paragraph ''Title'',
             Paragraph ''Body text'', Paragraph ''Body text'']),
          [Error (''Failed to retrieve the webpage: '' @ err),
           Warning (''Failed to retrieve the webpage content for URL: '' @ u2),
           Success ''DOCX generated successfully!''])"
  using main_two_urls [OF assms] by (simp add: page_warning_def)

text \<open>The same run where character data has no \<^verbatim>\<open>name\<close> attribute: the library's
  variant makes no difference here, every top-level node being an element.\<close>

theorem end_to_end_two_urls_witness:
  "main (web False) [''http://one.example/'', ''http://nowhere.example/''] DOCX =
     Inr (Some (DocxFile
            [Paragraph style_css, Heading ''Title'' 1, Paragraph ''Title'',
             Paragraph ''Body text'', Paragraph ''Body text'']),
          [Error ''Failed to retrieve the webpage: 404 Client Error: Not Found'',
           Warning ''Failed to retrieve the webpage content for URL: http://nowhere.example/'',
           Success ''DOCX generated successfully!''])"
proof -
  have g: "requests_get (web False) ''http://one.example/'' =
      Inr \<lparr>resp_text = ''<html>...</html>'', resp_markup = page_one, resp_content = []\<rparr>"
    "requests_get (web False) ''http://nowhere.example/'' = Inl not_found"
    by (simp_all add: web_def)
  from end_to_end_two_urls [OF _ _ g(1) _ _ _ g(2), of "[]" "[]" "[]"] page_one_facts
  show ?thesis
    by (simp add: not_found_def)
qed

end
